theory Spec2Isabelle
  imports Main "HOL-Library.Word" "HOL-Library.AList"
begin

section \<open>Data model of \<^verbatim>\<open>src/memory.ts\<close>\<close>

text \<open>
  JavaScript numbers that the class uses as sizes, offsets, lengths and addresses are
  modelled as \<^typ>\<open>int\<close> (the integral values of \<^verbatim>\<open>number\<close>); a \<^verbatim>\<open>bigint\<close> is an
  \<^typ>\<open>int\<close> as well. A JavaScript string is its sequence of UTF-16 code units.
  A \<^verbatim>\<open>Map\<close> is an association list in insertion order, which is the order a
  \<^verbatim>\<open>for..of\<close> over the map visits; its keys are distinct.
\<close>

type_synonym byte = "8 word"
type_synonym jsstring = "16 word list"
type_synonym BufferEncoding = string

datatype error = RangeError string | TypeError string | Error string

text \<open>
  A \<^verbatim>\<open>Uint8Array\<close> as \<^verbatim>\<open>read\<close> returns it: a window of \<open>length_u8\<close> bytes at
  \<open>byteOffset\<close> into a backing \<open>buffer\<close>. The record holds the contents of the whole
  backing buffer, since \<^verbatim>\<open>readUint32\<close> goes back to \<^verbatim>\<open>data.buffer\<close>. It is the
  contents at the time of the call: a later store through the view is not modelled.
\<close>

record Uint8Array =
  buffer :: "byte list"
  byteOffset :: nat
  length_u8 :: nat

definition bytes_of :: "Uint8Array \<Rightarrow> byte list" where
  "bytes_of v = take (length_u8 v) (drop (byteOffset v) (buffer v))"

text \<open>\<^verbatim>\<open>memory.subarray(begin, end)\<close> on a block that spans its whole buffer.\<close>

definition subarray :: "byte list \<Rightarrow> int \<Rightarrow> int \<Rightarrow> Uint8Array" where
  "subarray mem b e = \<lparr>buffer = mem, byteOffset = nat b, length_u8 = nat (e - b)\<rparr>"

definition whole :: "byte list \<Rightarrow> Uint8Array" where
  "whole mem = \<lparr>buffer = mem, byteOffset = 0, length_u8 = length mem\<rparr>"

text \<open>
  The private fields of \<^verbatim>\<open>VirtualMemory\<close>. A block is stored as the contents of its
  buffer: \<^verbatim>\<open>alloc\<close> stores \<^verbatim>\<open>new Uint8Array(size)\<close>, which spans a buffer of its own.
  The map of blocks is private and only \<^verbatim>\<open>alloc\<close> stores into it, so the tests
  \<^verbatim>\<open>memory instanceof Uint8Array\<close> of the methods never fail and their \<^verbatim>\<open>TypeError\<close>
  branches are left out; so is the test on \<^verbatim>\<open>data\<close> in \<^verbatim>\<open>write\<close>, whose parameter has
  the type \<^verbatim>\<open>Uint8Array\<close>.
\<close>

record VirtualMemory =
  mappedAddressNames :: "(jsstring \<times> int) list"
  memory :: "(int \<times> byte list) list"
  occupiedAddresses :: "int list"
  capacity :: int

definition MAX_SAFE_INTEGER :: int where
  "MAX_SAFE_INTEGER = 2 ^ 53 - 1"

definition MAX_SAFE_MEMORY_SIZE :: int where
  "MAX_SAFE_MEMORY_SIZE = (MAX_SAFE_INTEGER - 1) div 8"

definition new_VirtualMemory :: "int \<Rightarrow> error + VirtualMemory" where
  "new_VirtualMemory cap =
     (if cap > MAX_SAFE_MEMORY_SIZE
      then Inl (RangeError ''Memory capacity exceeds the maximum safe size'')
      else Inr \<lparr>mappedAddressNames = [], memory = [], occupiedAddresses = [], capacity = cap\<rparr>)"

text \<open>The well-formedness of the two \<^verbatim>\<open>Map\<close>s: a key occurs once.\<close>

definition well_formed :: "VirtualMemory \<Rightarrow> bool" where
  "well_formed s \<longleftrightarrow> distinct (map fst (memory s)) \<and> distinct (map fst (mappedAddressNames s))"

section \<open>Bookkeeping: size, byteLength, has, alloc, free, erase\<close>

definition size_vm :: "VirtualMemory \<Rightarrow> int" where
  "size_vm s = int (length (memory s))"

text \<open>
  The loop of \<^verbatim>\<open>byteLength\<close> over \<^verbatim>\<open>this.#memory.values()\<close>. Its \<^verbatim>\<open>instanceof\<close> test
  cannot fail: the private map only ever receives \<^verbatim>\<open>Uint8Array\<close> values.
\<close>

definition byteLength :: "VirtualMemory \<Rightarrow> int" where
  "byteLength s = foldl (\<lambda>acc item. acc + int (length item)) 0 (map snd (memory s))"

definition has :: "VirtualMemory \<Rightarrow> int \<Rightarrow> bool" where
  "has s address \<longleftrightarrow> map_of (memory s) address \<noteq> None"

definition hasVar :: "VirtualMemory \<Rightarrow> jsstring \<Rightarrow> bool" where
  "hasVar s name \<longleftrightarrow> map_of (mappedAddressNames s) name \<noteq> None"

text \<open>\<^verbatim>\<open>math.max(...xs)\<close> on a non-empty list.\<close>

fun max_list :: "int list \<Rightarrow> int" where
  "max_list [] = 0"
| "max_list (x # xs) = foldl max x xs"

text \<open>The loop \<^verbatim>\<open>while(this.has(address)) address++\<close>.\<close>

function probe :: "(int \<times> byte list) list \<Rightarrow> int \<Rightarrow> int" where
  "probe m address = (if map_of m address \<noteq> None then probe m (address + 1) else address)"
  by pat_completeness auto

lemma filter_le_mono_length:
  "length (filter (\<lambda>k. (a::int) + 1 \<le> k) ks) \<le> length (filter (\<lambda>k. a \<le> k) ks)"
  by (induction ks) auto

lemma filter_le_strict_length:
  "(a::int) \<in> set ks \<Longrightarrow>
   length (filter (\<lambda>k. a + 1 \<le> k) ks) < length (filter (\<lambda>k. a \<le> k) ks)"
proof (induction ks)
  case Nil
  then show ?case by simp
next
  case (Cons k ks)
  show ?case
  proof (cases "k = a")
    case True
    then show ?thesis
      using filter_le_mono_length [of a ks] by simp
  next
    case False
    with Cons show ?thesis by auto
  qed
qed

termination probe
proof (relation "measure (\<lambda>(m, a). length (filter (\<lambda>k. a \<le> k) (map fst m)))")
  show "wf (measure (\<lambda>(m, a). length (filter (\<lambda>k. a \<le> k) (map fst m))))"
    by simp
next
  fix m :: "(int \<times> byte list) list" and address :: int
  assume "map_of m address \<noteq> None"
  then have "address \<in> set (map fst m)"
    by (simp add: map_of_eq_None_iff)
  then show "((m, address + 1), (m, address))
      \<in> measure (\<lambda>(m, a). length (filter (\<lambda>k. a \<le> k) (map fst m)))"
    using filter_le_strict_length [of address "map fst m"] by simp
qed

declare probe.simps [simp del]

text \<open>
  \<^verbatim>\<open>alloc\<close>. The new block is \<^verbatim>\<open>new Uint8Array(size)\<close>: \<open>size\<close> zero bytes. What the
  host does when it cannot provide a buffer of that length is outside the model.
\<close>

definition alloc :: "VirtualMemory \<Rightarrow> int \<Rightarrow> (error + int) \<times> VirtualMemory" where
  "alloc s sz =
     (if sz \<le> 0
      then (Inl (RangeError ''Memory allocation size must be greater than 0''), s)
      else if byteLength s + sz > capacity s
      then (Inl (RangeError ''Memory allocation exceeds the memory capacity''), s)
      else
        let start = (if length (occupiedAddresses s) > 0
                     then max_list (occupiedAddresses s) + 1 else size_vm s);
            address = probe (memory s) start
        in (Inr address,
            s\<lparr>memory := AList.update address (replicate (nat sz) 0) (memory s)\<rparr>))"

definition setVar :: "VirtualMemory \<Rightarrow> jsstring \<Rightarrow> int \<Rightarrow> (error + unit) \<times> VirtualMemory" where
  "setVar s name address =
     (if hasVar s name then (Inl (Error ''Variable name already exists''), s)
      else (Inr (), s\<lparr>mappedAddressNames := AList.update name address (mappedAddressNames s)\<rparr>))"

text \<open>
  The scan of \<^verbatim>\<open>free\<close> over the names up to its \<^verbatim>\<open>break\<close>: the first name, in
  insertion order, that is bound to the address.
\<close>

fun first_bound :: "int \<Rightarrow> (jsstring \<times> int) list \<Rightarrow> jsstring option" where
  "first_bound address [] = None"
| "first_bound address ((name, mappedAddress) # rest) =
     (if mappedAddress = address then Some name else first_bound address rest)"

definition free :: "VirtualMemory \<Rightarrow> int \<Rightarrow> bool \<times> VirtualMemory" where
  "free s address =
     (if \<not> has s address then (False, s)
      else (True,
        s\<lparr>memory := AList.delete address (memory s),
          occupiedAddresses := filter (\<lambda>occupiedAddress. occupiedAddress \<noteq> address)
                                 (occupiedAddresses s),
          mappedAddressNames :=
            (case first_bound address (mappedAddressNames s) of
               None \<Rightarrow> mappedAddressNames s
             | Some name \<Rightarrow> AList.delete name (mappedAddressNames s))\<rparr>))"

definition freeVar :: "VirtualMemory \<Rightarrow> jsstring \<Rightarrow> bool \<times> VirtualMemory" where
  "freeVar s name =
     (case map_of (mappedAddressNames s) name of
        None \<Rightarrow> (False, s)
      | Some address \<Rightarrow> free s address)"

definition erase :: "VirtualMemory \<Rightarrow> VirtualMemory" where
  "erase s = s\<lparr>memory := [], occupiedAddresses := [], mappedAddressNames := []\<rparr>"

section \<open>Region I/O: read, write, copy, fill, clear\<close>

text \<open>
  \<^verbatim>\<open>read\<close> changes nothing, so it returns its result only: an error, \<^verbatim>\<open>null\<close>
  (\<open>None\<close>) or the view. The optional \<^verbatim>\<open>length\<close> is an \<open>int option\<close>.
\<close>

definition read :: "VirtualMemory \<Rightarrow> int \<Rightarrow> int option \<Rightarrow> int \<Rightarrow> error + Uint8Array option" where
  "read s address len offset =
     (case map_of (memory s) address of
        None \<Rightarrow> Inr None
      | Some mem \<Rightarrow>
          let len' = (case len of None \<Rightarrow> int (length mem) | Some l \<Rightarrow> l) in
          if offset < 0 \<or> offset \<ge> int (length mem)
          then Inl (RangeError ''Invalid memory read offset'')
          else if len' \<le> 0 \<or> offset + len' > int (length mem)
          then Inl (RangeError ''Invalid memory read length'')
          else Inr (Some (if len' = int (length mem) \<and> offset = 0 then whole mem
                          else subarray mem offset (offset + len'))))"

definition readVar :: "VirtualMemory \<Rightarrow> jsstring \<Rightarrow> int option \<Rightarrow> int \<Rightarrow> error + Uint8Array option" where
  "readVar s name len offset =
     (case map_of (mappedAddressNames s) name of
        None \<Rightarrow> Inr None
      | Some address \<Rightarrow> read s address len offset)"

definition getVarAddress :: "VirtualMemory \<Rightarrow> jsstring \<Rightarrow> int option" where
  "getVarAddress s name = map_of (mappedAddressNames s) name"

text \<open>
  \<^verbatim>\<open>target.set(data, offset)\<close> on a typed array, for an offset and a length that the
  caller has checked: the bytes from \<open>offset\<close> on are replaced by \<open>data\<close>.
\<close>

definition set_bytes :: "byte list \<Rightarrow> byte list \<Rightarrow> int \<Rightarrow> byte list" where
  "set_bytes mem data offset =
     take (nat offset) mem @ data @ drop (nat offset + length data) mem"

text \<open>
  \<^verbatim>\<open>write\<close> (\<open>write\<close> is a keyword of Isabelle, hence the suffix). The parameter \<open>data\<close> is the bytes of the \<^verbatim>\<open>Uint8Array\<close> passed in;
  the \<^verbatim>\<open>instanceof\<close> tests cannot fail for a well-typed call.
\<close>

definition write_vm :: "VirtualMemory \<Rightarrow> int \<Rightarrow> byte list \<Rightarrow> int \<Rightarrow> (error + bool) \<times> VirtualMemory" where
  "write_vm s address data offset =
     (case map_of (memory s) address of
        None \<Rightarrow> (Inr False, s)
      | Some mem \<Rightarrow>
          if offset < 0 \<or> offset \<ge> int (length mem)
          then (Inl (RangeError ''Invalid memory write offset''), s)
          else if int (length data) \<le> 0 \<or> offset + int (length data) > int (length mem)
          then (Inl (RangeError ''Invalid memory write data length''), s)
          else (Inr True, s\<lparr>memory := AList.update address (set_bytes mem data offset) (memory s)\<rparr>))"

definition writeVar :: "VirtualMemory \<Rightarrow> jsstring \<Rightarrow> byte list \<Rightarrow> int \<Rightarrow> (error + bool) \<times> VirtualMemory" where
  "writeVar s name data offset =
     (case map_of (mappedAddressNames s) name of
        None \<Rightarrow> (Inr False, s)
      | Some address \<Rightarrow> write_vm s address data offset)"

text \<open>
  \<^verbatim>\<open>copy\<close>: the source bytes are those of the state before the call, also when
  both addresses are the same block (\<^verbatim>\<open>set\<close> copies an overlapping source first).
\<close>

definition copy :: "VirtualMemory \<Rightarrow> int \<Rightarrow> int \<Rightarrow> int \<Rightarrow> int \<Rightarrow> int \<Rightarrow> (error + bool) \<times> VirtualMemory" where
  "copy s srcAddress destAddress len srcOffset destOffset =
     (case (map_of (memory s) srcAddress, map_of (memory s) destAddress) of
        (Some srcMemory, Some destMemory) \<Rightarrow>
          if srcOffset < 0 \<or> srcOffset \<ge> int (length srcMemory)
          then (Inl (RangeError ''Invalid memory copy source offset''), s)
          else if destOffset < 0 \<or> destOffset \<ge> int (length destMemory)
          then (Inl (RangeError ''Invalid memory copy destination offset''), s)
          else if len \<le> 0 \<or> srcOffset + len > int (length srcMemory)
                  \<or> destOffset + len > int (length destMemory)
          then (Inl (RangeError ''Invalid memory copy length''), s)
          else (Inr True,
                s\<lparr>memory := AList.update destAddress
                    (set_bytes destMemory
                       (bytes_of (subarray srcMemory srcOffset (srcOffset + len))) destOffset)
                    (memory s)\<rparr>)
      | _ \<Rightarrow> (Inr False, s))"

definition copyVar :: "VirtualMemory \<Rightarrow> jsstring \<Rightarrow> jsstring \<Rightarrow> int \<Rightarrow> int \<Rightarrow> int \<Rightarrow> (error + bool) \<times> VirtualMemory" where
  "copyVar s srcName destName len srcOffset destOffset =
     (case (map_of (mappedAddressNames s) srcName, map_of (mappedAddressNames s) destName) of
        (Some srcAddress, Some destAddress) \<Rightarrow>
          copy s srcAddress destAddress len srcOffset destOffset
      | _ \<Rightarrow> (Inr False, s))"

text \<open>\<^verbatim>\<open>memory.fill(value, offset, offset + length)\<close> stores \<open>value\<close> modulo 256.\<close>

definition fill :: "VirtualMemory \<Rightarrow> int \<Rightarrow> int \<Rightarrow> int \<Rightarrow> int \<Rightarrow> (error + bool) \<times> VirtualMemory" where
  "fill s address val len offset =
     (case map_of (memory s) address of
        None \<Rightarrow> (Inr False, s)
      | Some mem \<Rightarrow>
          if offset < 0 \<or> offset \<ge> int (length mem)
          then (Inl (RangeError ''Invalid memory fill offset''), s)
          else if len \<le> 0 \<or> offset + len > int (length mem)
          then (Inl (RangeError ''Invalid memory fill length''), s)
          else (Inr True,
                s\<lparr>memory := AList.update address
                    (set_bytes mem (replicate (nat len) (word_of_int val)) offset) (memory s)\<rparr>))"

definition fillVar :: "VirtualMemory \<Rightarrow> jsstring \<Rightarrow> int \<Rightarrow> int \<Rightarrow> int \<Rightarrow> (error + bool) \<times> VirtualMemory" where
  "fillVar s name val len offset =
     (case map_of (mappedAddressNames s) name of
        None \<Rightarrow> (Inr False, s)
      | Some address \<Rightarrow> fill s address val len offset)"

definition clear :: "VirtualMemory \<Rightarrow> int \<Rightarrow> int \<Rightarrow> int \<Rightarrow> (error + bool) \<times> VirtualMemory" where
  "clear s address len offset = fill s address 0 len offset"

definition clearVar :: "VirtualMemory \<Rightarrow> jsstring \<Rightarrow> int \<Rightarrow> int \<Rightarrow> (error + bool) \<times> VirtualMemory" where
  "clearVar s name len offset = fillVar s name 0 len offset"

section \<open>The host: byte order and text codecs\<close>

text \<open>
  What the JavaScript host provides and the repository does not define: the byte order
  of typed arrays, whether \<^verbatim>\<open>Buffer\<close> exists, and the text codecs
  (\<^verbatim>\<open>Buffer.from(value, encoding)\<close>, \<^verbatim>\<open>Buffer.from(data).toString(encoding)\<close>,
  \<^verbatim>\<open>TextEncoder\<close>, \<^verbatim>\<open>TextDecoder\<close>). They are parameters of the model.
\<close>

record host =
  littleEndian :: bool
  Buffer_defined :: bool
  Buffer_from :: "jsstring \<Rightarrow> BufferEncoding \<Rightarrow> byte list"
  Buffer_toString :: "byte list \<Rightarrow> BufferEncoding \<Rightarrow> jsstring"
  TextEncoder_encode :: "jsstring \<Rightarrow> byte list"
  TextDecoder_decode :: "byte list \<Rightarrow> jsstring"

text \<open>
  A host to instantiate the theorems with: little-endian, with a \<^verbatim>\<open>Buffer\<close> whose codec
  is Latin-1 (one byte per code unit, the low eight bits) under every encoding name.
\<close>

definition latin1_host :: host where
  "latin1_host =
     \<lparr>littleEndian = True, Buffer_defined = True,
      Buffer_from = (\<lambda>v enc. map ucast v), Buffer_toString = (\<lambda>bs enc. map ucast bs),
      TextEncoder_encode = map ucast, TextDecoder_decode = map ucast\<rparr>"

section \<open>Scalar codec\<close>

text \<open>
  Element conversion of typed arrays, as ECMAScript defines it: a value stored into an
  unsigned \<open>n\<close>-bit element is taken modulo \<open>2 ^ n\<close>, into a signed one modulo \<open>2 ^ n\<close>
  and then read as two's complement; the raw bytes of an element are the binary
  encoding of the value (plus \<open>2 ^ n\<close> when it is negative) in the host's byte order.
\<close>

definition ToUintN :: "nat \<Rightarrow> int \<Rightarrow> int" where
  "ToUintN n v = v mod 2 ^ n"

definition ToIntN :: "nat \<Rightarrow> int \<Rightarrow> int" where
  "ToIntN n v = (let m = v mod 2 ^ n in if m \<ge> 2 ^ (n - 1) then m - 2 ^ n else m)"

definition NumericToRawBytes :: "host \<Rightarrow> nat \<Rightarrow> int \<Rightarrow> byte list" where
  "NumericToRawBytes h n v =
     (let intValue = (if v < 0 then v + 2 ^ (8 * n) else v);
          rawBytes = map (\<lambda>i. word_of_int (intValue div 2 ^ (8 * i))) [0..<n]
      in if littleEndian h then rawBytes else rev rawBytes)"

definition RawBytesToUint :: "host \<Rightarrow> byte list \<Rightarrow> int" where
  "RawBytesToUint h rawBytes =
     foldr (\<lambda>b acc. uint b + 256 * acc) (if littleEndian h then rawBytes else rev rawBytes) 0"

definition writeUint8 :: "host \<Rightarrow> VirtualMemory \<Rightarrow> int \<Rightarrow> int \<Rightarrow> int \<Rightarrow> (error + bool) \<times> VirtualMemory" where
  "writeUint8 h s address val offset =
     write_vm s address (NumericToRawBytes h 1 (ToUintN 8 val)) offset"

definition writeUint16 :: "host \<Rightarrow> VirtualMemory \<Rightarrow> int \<Rightarrow> int \<Rightarrow> int \<Rightarrow> (error + bool) \<times> VirtualMemory" where
  "writeUint16 h s address val offset =
     write_vm s address (NumericToRawBytes h 2 (ToUintN 16 val)) offset"

definition writeUint32 :: "host \<Rightarrow> VirtualMemory \<Rightarrow> int \<Rightarrow> int \<Rightarrow> int \<Rightarrow> (error + bool) \<times> VirtualMemory" where
  "writeUint32 h s address val offset =
     write_vm s address (NumericToRawBytes h 4 (ToUintN 32 val)) offset"

definition writeUint64 :: "host \<Rightarrow> VirtualMemory \<Rightarrow> int \<Rightarrow> int \<Rightarrow> int \<Rightarrow> (error + bool) \<times> VirtualMemory" where
  "writeUint64 h s address val offset =
     write_vm s address (NumericToRawBytes h 8 (ToUintN 64 val)) offset"

definition writeInt8 :: "host \<Rightarrow> VirtualMemory \<Rightarrow> int \<Rightarrow> int \<Rightarrow> int \<Rightarrow> (error + bool) \<times> VirtualMemory" where
  "writeInt8 h s address val offset =
     write_vm s address (NumericToRawBytes h 1 (ToIntN 8 val)) offset"

definition writeInt16 :: "host \<Rightarrow> VirtualMemory \<Rightarrow> int \<Rightarrow> int \<Rightarrow> int \<Rightarrow> (error + bool) \<times> VirtualMemory" where
  "writeInt16 h s address val offset =
     write_vm s address (NumericToRawBytes h 2 (ToIntN 16 val)) offset"

definition writeInt32 :: "host \<Rightarrow> VirtualMemory \<Rightarrow> int \<Rightarrow> int \<Rightarrow> int \<Rightarrow> (error + bool) \<times> VirtualMemory" where
  "writeInt32 h s address val offset =
     write_vm s address (NumericToRawBytes h 4 (ToIntN 32 val)) offset"

text \<open>\<^verbatim>\<open>writeInt64\<close> goes through a \<^verbatim>\<open>BigInt64Array\<close>, \<^verbatim>\<open>writeBigInt64\<close> through a \<^verbatim>\<open>BigUint64Array\<close>.\<close>

definition writeInt64 :: "host \<Rightarrow> VirtualMemory \<Rightarrow> int \<Rightarrow> int \<Rightarrow> int \<Rightarrow> (error + bool) \<times> VirtualMemory" where
  "writeInt64 h s address val offset =
     write_vm s address (NumericToRawBytes h 8 (ToIntN 64 val)) offset"

definition writeBigInt64 :: "host \<Rightarrow> VirtualMemory \<Rightarrow> int \<Rightarrow> int \<Rightarrow> int \<Rightarrow> (error + bool) \<times> VirtualMemory" where
  "writeBigInt64 h s address val offset =
     write_vm s address (NumericToRawBytes h 8 (ToUintN 64 val)) offset"

text \<open>
  \<^verbatim>\<open>readUint32\<close>: \<^verbatim>\<open>new Uint32Array(data.buffer)[0]\<close>. The typed array is laid over the
  whole backing buffer of the view, from its first byte; the constructor raises a
  \<^verbatim>\<open>RangeError\<close> when the byte length of that buffer is not a multiple of 4.
\<close>

definition readUint32 :: "host \<Rightarrow> VirtualMemory \<Rightarrow> int \<Rightarrow> int \<Rightarrow> error + int" where
  "readUint32 h s address offset =
     (case read s address (Some 4) offset of
        Inl e \<Rightarrow> Inl e
      | Inr None \<Rightarrow> Inr 0
      | Inr (Some data) \<Rightarrow>
          if length (buffer data) mod 4 \<noteq> 0
          then Inl (RangeError ''byte length of Uint32Array should be a multiple of 4'')
          else Inr (RawBytesToUint h (take 4 (buffer data))))"

section \<open>String codec\<close>

definition encodedBytes :: "host \<Rightarrow> jsstring \<Rightarrow> BufferEncoding \<Rightarrow> byte list" where
  "encodedBytes h val encoding =
     (if Buffer_defined h then Buffer_from h val encoding else TextEncoder_encode h val)"

definition decodedString :: "host \<Rightarrow> byte list \<Rightarrow> BufferEncoding \<Rightarrow> jsstring" where
  "decodedString h bs encoding =
     (if Buffer_defined h then Buffer_toString h bs encoding else TextDecoder_decode h bs)"

text \<open>
  \<^verbatim>\<open>writeString\<close> returns the state as well when it raises: an error of \<^verbatim>\<open>write\<close>
  leaves the block that \<^verbatim>\<open>alloc\<close> has just inserted.
\<close>

definition writeString :: "host \<Rightarrow> VirtualMemory \<Rightarrow> jsstring \<Rightarrow> int \<Rightarrow> BufferEncoding \<Rightarrow> (error + int option) \<times> VirtualMemory" where
  "writeString h mem val offset encoding =
     (let encodedValue = encodedBytes h val encoding in
      case alloc mem (int (length encodedValue)) of
        (Inl e, mem1) \<Rightarrow> (Inl e, mem1)
      | (Inr addr, mem1) \<Rightarrow>
          (case write_vm mem1 addr encodedValue offset of
             (Inl e, mem2) \<Rightarrow> (Inl e, mem2)
           | (Inr ok, mem2) \<Rightarrow> if \<not> ok then (Inr None, mem2) else (Inr (Some addr), mem2)))"

definition readString :: "host \<Rightarrow> VirtualMemory \<Rightarrow> int \<Rightarrow> int option \<Rightarrow> int \<Rightarrow> BufferEncoding \<Rightarrow> error + jsstring option" where
  "readString h mem address len offset encoding =
     (case read mem address len offset of
        Inl e \<Rightarrow> Inl e
      | Inr None \<Rightarrow> Inr None
      | Inr (Some data) \<Rightarrow> Inr (Some (decodedString h (bytes_of data) encoding)))"

section \<open>Sequences of operations\<close>

text \<open>
  The calls that can change an address space, and the state each leaves behind
  (whether it returns or raises).
\<close>

datatype op =
    Alloc int
  | Free int
  | FreeVar jsstring
  | Erase
  | SetVar jsstring int
  | Write int "byte list" int
  | WriteVar jsstring "byte list" int
  | Copy int int int int int
  | CopyVar jsstring jsstring int int int
  | Fill int int int int
  | FillVar jsstring int int int
  | Clear int int int
  | ClearVar jsstring int int
  | WriteUint8 int int int
  | WriteUint16 int int int
  | WriteUint32 int int int
  | WriteUint64 int int int
  | WriteInt8 int int int
  | WriteInt16 int int int
  | WriteInt32 int int int
  | WriteInt64 int int int
  | WriteBigInt64 int int int
  | WriteString jsstring int BufferEncoding

fun exec :: "host \<Rightarrow> VirtualMemory \<Rightarrow> op \<Rightarrow> VirtualMemory" where
  "exec h s (Alloc n) = snd (alloc s n)"
| "exec h s (Free a) = snd (free s a)"
| "exec h s (FreeVar x) = snd (freeVar s x)"
| "exec h s Erase = erase s"
| "exec h s (SetVar x a) = snd (setVar s x a)"
| "exec h s (Write a d off) = snd (write_vm s a d off)"
| "exec h s (WriteVar x d off) = snd (writeVar s x d off)"
| "exec h s (Copy a b n so dof) = snd (copy s a b n so dof)"
| "exec h s (CopyVar x y n so dof) = snd (copyVar s x y n so dof)"
| "exec h s (Fill a v n off) = snd (fill s a v n off)"
| "exec h s (FillVar x v n off) = snd (fillVar s x v n off)"
| "exec h s (Clear a n off) = snd (clear s a n off)"
| "exec h s (ClearVar x n off) = snd (clearVar s x n off)"
| "exec h s (WriteUint8 a v off) = snd (writeUint8 h s a v off)"
| "exec h s (WriteUint16 a v off) = snd (writeUint16 h s a v off)"
| "exec h s (WriteUint32 a v off) = snd (writeUint32 h s a v off)"
| "exec h s (WriteUint64 a v off) = snd (writeUint64 h s a v off)"
| "exec h s (WriteInt8 a v off) = snd (writeInt8 h s a v off)"
| "exec h s (WriteInt16 a v off) = snd (writeInt16 h s a v off)"
| "exec h s (WriteInt32 a v off) = snd (writeInt32 h s a v off)"
| "exec h s (WriteInt64 a v off) = snd (writeInt64 h s a v off)"
| "exec h s (WriteBigInt64 a v off) = snd (writeBigInt64 h s a v off)"
| "exec h s (WriteString v off enc) = snd (writeString h s v off enc)"

definition run :: "host \<Rightarrow> VirtualMemory \<Rightarrow> op list \<Rightarrow> VirtualMemory" where
  "run h s ops = foldl (exec h) s ops"

text \<open>The live addresses, and the length of the block at an address.\<close>

definition live :: "VirtualMemory \<Rightarrow> int set" where
  "live s = {a. has s a}"

definition block_length :: "VirtualMemory \<Rightarrow> int \<Rightarrow> nat option" where
  "block_length s a = map_option length (map_of (memory s) a)"

text \<open>
  An address space to evaluate the operations on: one block of two zero bytes at
  address 0, with two names bound to it.
\<close>

definition two_names_space :: VirtualMemory where
  "two_names_space =
     \<lparr>mappedAddressNames = [([120], 0), ([121], 0)], memory = [(0, [0, 0])],
      occupiedAddresses = [], capacity = 80\<rparr>"

text \<open>The space that the constructor returns, a string and a block that holds a zero.\<close>

definition empty_space :: "int \<Rightarrow> VirtualMemory" where
  "empty_space cap = \<lparr>mappedAddressNames = [], memory = [], occupiedAddresses = [], capacity = cap\<rparr>"

definition hello :: jsstring where
  "hello = [72, 101, 108, 108, 111]"

definition zero_word_space :: VirtualMemory where
  "zero_word_space = \<lparr>mappedAddressNames = [], memory = [(0, [0, 0, 0, 0])],
      occupiedAddresses = [], capacity = 80\<rparr>"

section \<open>The invariant of the address space\<close>

text \<open>
  The shape of the block store: its addresses, in order, with the length of each block.
  Two states have the same shape when they differ in the bytes of the blocks only.
\<close>

definition shape :: "(int \<times> byte list) list \<Rightarrow> (int \<times> nat) list" where
  "shape m = map (\<lambda>(k, v). (k, length v)) m"

definition same_shape :: "VirtualMemory \<Rightarrow> VirtualMemory \<Rightarrow> bool" where
  "same_shape s s' \<longleftrightarrow>
     shape (memory s') = shape (memory s) \<and> mappedAddressNames s' = mappedAddressNames s \<and>
     occupiedAddresses s' = occupiedAddresses s \<and> capacity s' = capacity s"

text \<open>
  What every state reached from the constructor satisfies: the capacity is the one given
  at construction, the list of occupied addresses is empty, the keys of both maps are
  distinct, and (for a capacity that is not negative) the blocks fit the capacity.
\<close>

definition invariant :: "int \<Rightarrow> VirtualMemory \<Rightarrow> bool" where
  "invariant cap s \<longleftrightarrow>
     capacity s = cap \<and> occupiedAddresses s = [] \<and> well_formed s \<and>
     (0 \<le> cap \<longrightarrow> byteLength s \<le> cap)"

text \<open>
  One call keeps the invariant, and a block that is live before and after the call has
  the length it had.
\<close>

definition ok_step :: "VirtualMemory \<Rightarrow> VirtualMemory \<Rightarrow> bool" where
  "ok_step s s' \<longleftrightarrow>
     (\<forall>cap. invariant cap s \<longrightarrow> invariant cap s') \<and>
     (\<forall>a. has s a \<and> has s' a \<longrightarrow> block_length s' a = block_length s a)"

section \<open>Facts about the maps\<close>

lemma length_set_bytes:
  "0 \<le> offset \<Longrightarrow> offset + int (length d) \<le> int (length mem) \<Longrightarrow>
   length (set_bytes mem d offset) = length mem"
  by (simp add: set_bytes_def)

lemma map_of_update_same: "map_of (AList.update k v m) k = Some v"
  by (simp add: AList.update_conv')

lemma map_of_update_other: "k' \<noteq> k \<Longrightarrow> map_of (AList.update k v m) k' = map_of m k'"
  by (simp add: AList.update_conv')

lemma keys_update_live:
  "map_of m k \<noteq> None \<Longrightarrow> map fst (AList.update k v m) = map fst m"
  by (simp add: AList.update_keys map_of_eq_None_iff)

lemma map_of_delete_same: "map_of (AList.delete a m) a = None"
  by (simp add: AList.delete_conv')

lemma first_bound_None: "first_bound a ns = None \<longleftrightarrow> a \<notin> snd ` set ns"
  by (induction ns) (auto split: if_splits)

lemma first_bound_split:
  "ns = xs @ (n, a) # ys \<Longrightarrow> a \<notin> snd ` set xs \<Longrightarrow> first_bound a ns = Some n"
  by (induction xs arbitrary: ns) (auto split: if_splits)

lemma delete_distinct_split:
  "distinct (map fst (xs @ (n, v) # ys)) \<Longrightarrow> AList.delete n (xs @ (n, v) # ys) = xs @ ys"
  by (induction xs) (auto simp: AList.delete_eq image_iff intro!: filter_True)

lemma update_fresh: "map_of m k = None \<Longrightarrow> AList.update k v m = m @ [(k, v)]"
  by (induction m) (auto split: if_splits)

lemma foldl_lengths:
  "foldl (\<lambda>acc item. acc + int (length item)) z xs = z + (\<Sum>x\<leftarrow>xs. int (length x))"
  by (induction xs arbitrary: z) simp_all

lemma byteLength_shape: "byteLength s = (\<Sum>p\<leftarrow>shape (memory s). int (snd p))"
proof -
  have "map (\<lambda>p. int (snd p)) (shape m) = map (\<lambda>x. int (length x)) (map snd m)" for m
    by (induction m) (auto simp: shape_def)
  then show ?thesis
    by (simp add: byteLength_def foldl_lengths)
qed

lemma keys_shape: "map fst (shape m) = map fst m"
  by (induction m) (auto simp: shape_def)

lemma map_of_shape: "map_of (shape m) a = map_option length (map_of m a)"
  by (induction m) (auto simp: shape_def)

lemma shape_update_same_length:
  "map_of m k = Some old \<Longrightarrow> length new = length old \<Longrightarrow> shape (AList.update k new m) = shape m"
  by (induction m) (auto simp: shape_def split: if_splits)

lemma sum_shape_delete: "(\<Sum>p\<leftarrow>shape (AList.delete a m). int (snd p)) \<le> (\<Sum>p\<leftarrow>shape m. int (snd p))"
  by (induction m) (auto simp: shape_def)

section \<open>The address probe and the allocator\<close>

lemma probe_free: "map_of m (probe m a) = None"
proof (induction m a rule: probe.induct)
  case (1 m address)
  then show ?case
    by (subst probe.simps) (simp del: probe.simps)
qed



lemma alloc_ok:
  assumes "0 < n" and "byteLength s + n \<le> capacity s"
  shows "\<exists>addr. \<not> has s addr \<and>
           alloc s n = (Inr addr, s\<lparr>memory := AList.update addr (replicate (nat n) 0) (memory s)\<rparr>)"
proof -
  let ?start = "if length (occupiedAddresses s) > 0 then max_list (occupiedAddresses s) + 1 else size_vm s"
  have "\<not> has s (probe (memory s) ?start)"
    by (simp add: has_def probe_free)
  with assms show ?thesis
    by (auto simp: alloc_def Let_def)
qed

lemma alloc_cases:
  "snd (alloc s n) = s \<or>
   (\<exists>addr. 0 < n \<and> byteLength s + n \<le> capacity s \<and> map_of (memory s) addr = None \<and>
      snd (alloc s n) = s\<lparr>memory := memory s @ [(addr, replicate (nat n) 0)]\<rparr>)"
proof (cases "0 < n \<and> byteLength s + n \<le> capacity s")
  case True
  with alloc_ok [of n s] obtain addr where "\<not> has s addr"
    and "alloc s n = (Inr addr, s\<lparr>memory := AList.update addr (replicate (nat n) 0) (memory s)\<rparr>)"
    by auto
  with True show ?thesis
    by (auto simp: has_def update_fresh simp del: AList.update.simps)
next
  case False
  then show ?thesis by (auto simp: alloc_def)
qed

section \<open>Evaluation of the constructor and of small runs\<close>

lemma new_80: "new_VirtualMemory 80 = Inr (empty_space 80)"
  by (simp add: new_VirtualMemory_def empty_space_def MAX_SAFE_MEMORY_SIZE_def MAX_SAFE_INTEGER_def)


lemma alloc8: "alloc (empty_space 80) 8 = (Inr 0, (empty_space 80)\<lparr>memory := [(0, replicate 8 0)]\<rparr>)"
  by (simp add: alloc_def empty_space_def byteLength_def size_vm_def probe.simps)

lemma alloc5: "alloc (empty_space 80) 5 = (Inr 0, (empty_space 80)\<lparr>memory := [(0, replicate 5 0)]\<rparr>)"
  by (simp add: alloc_def empty_space_def byteLength_def size_vm_def probe.simps)

lemma run_example:
  "15 \<le> c \<Longrightarrow> run latin1_host (empty_space c) [Alloc 10, Alloc 5, Free 0] =
     (empty_space c)\<lparr>memory := [(1, replicate 5 0)]\<rparr>"
  by (simp add: run_def alloc_def free_def has_def empty_space_def byteLength_def size_vm_def
      probe.simps)

lemma raw4_1: "NumericToRawBytes h 4 (ToUintN 32 1) = (if littleEndian h then [1, 0, 0, 0] else [0, 0, 0, 1])"
  by (simp add: NumericToRawBytes_def ToUintN_def upt_rec numeral_eq_Suc)

lemma decode_raw4_1: "RawBytesToUint h (NumericToRawBytes h 4 (ToUintN 32 1)) = 1"
  by (simp add: raw4_1 RawBytesToUint_def)

section \<open>Calls that overwrite bytes keep the shape\<close>

lemma same_shape_refl: "same_shape s s"
  by (simp add: same_shape_def)

lemma same_shape_update:
  "map_of (memory s) a = Some old \<Longrightarrow> length new = length old \<Longrightarrow>
   same_shape s (s\<lparr>memory := AList.update a new (memory s)\<rparr>)"
  by (simp add: same_shape_def shape_update_same_length del: AList.update.simps)

lemma same_shape_lengths:
  assumes "same_shape s s'"
  shows "map_option length (map_of (memory s') a) = map_option length (map_of (memory s) a)"
proof -
  from assms have "map_of (shape (memory s')) a = map_of (shape (memory s)) a"
    by (simp add: same_shape_def)
  then show ?thesis
    by (simp only: map_of_shape)
qed

lemma same_shape_has: "same_shape s s' \<Longrightarrow> has s' a = has s a"
  using same_shape_lengths [of s s' a]
  by (cases "map_of (memory s') a"; cases "map_of (memory s) a") (simp_all add: has_def)

lemma same_shape_block_length: "same_shape s s' \<Longrightarrow> block_length s' a = block_length s a"
  by (simp add: same_shape_lengths block_length_def)

lemma same_shape_invariant: "same_shape s s' \<Longrightarrow> invariant cap s \<Longrightarrow> invariant cap s'"
  using keys_shape [of "memory s"] keys_shape [of "memory s'"]
  by (simp add: same_shape_def invariant_def well_formed_def byteLength_shape)

lemma same_shape_ok: "same_shape s s' \<Longrightarrow> ok_step s s'"
  by (simp add: ok_step_def same_shape_invariant same_shape_block_length)

lemma ok_step_same_shape: "ok_step s s1 \<Longrightarrow> same_shape s1 s2 \<Longrightarrow> ok_step s s2"
  by (simp add: ok_step_def same_shape_invariant same_shape_block_length same_shape_has)

lemma ok_step_refl: "ok_step s s"
  by (simp add: ok_step_def)

lemma write_vm_same_shape: "same_shape s (snd (write_vm s a d off))"
  by (auto simp: write_vm_def same_shape_refl length_set_bytes intro!: same_shape_update
      split: option.splits simp del: AList.update.simps)

lemma fill_same_shape: "same_shape s (snd (fill s a v n off))"
  by (auto simp: fill_def same_shape_refl length_set_bytes intro!: same_shape_update
      split: option.splits simp del: AList.update.simps)

lemma copy_same_shape: "same_shape s (snd (copy s a b n so dof))"
  by (auto simp: copy_def same_shape_refl length_set_bytes bytes_of_def subarray_def
      intro!: same_shape_update split: option.splits simp del: AList.update.simps)

section \<open>Every call keeps the invariant\<close>

lemma append_fresh_ok:
  assumes "map_of (memory s) addr = None" and "byteLength s + int (length v) \<le> capacity s"
  shows "ok_step s (s\<lparr>memory := memory s @ [(addr, v)]\<rparr>)"
proof -
  have "addr \<notin> fst ` set (memory s)"
    using assms(1) by (simp add: map_of_eq_None_iff)
  moreover have "byteLength (s\<lparr>memory := memory s @ [(addr, v)]\<rparr>) = byteLength s + int (length v)"
    by (simp add: byteLength_shape shape_def)
  moreover have "map_of (memory s @ [(addr, v)]) a = map_of (memory s) a" if "has s a" for a
    using that by (auto simp: has_def map_add_def split: option.splits)
  ultimately show ?thesis
    using assms(2) by (auto simp: ok_step_def invariant_def well_formed_def block_length_def)
qed

lemma alloc_ok_step: "ok_step s (snd (alloc s n))"
  using alloc_cases [of s n] append_fresh_ok [of s _ "replicate (nat n) 0"]
  by (auto simp: ok_step_refl)

lemma free_ok_step: "ok_step s (snd (free s a))"
proof (cases "has s a")
  case False
  then show ?thesis by (simp add: free_def ok_step_refl)
next
  case True
  have "distinct (map fst (AList.delete n ns))" if "distinct (map fst ns)" for n and ns :: "(jsstring \<times> int) list"
    using that by (rule AList.distinct_delete)
  then have names: "distinct (map fst (case first_bound a ns of None \<Rightarrow> ns | Some n \<Rightarrow> AList.delete n ns))"
    if "distinct (map fst ns)" for ns
    using that by (simp split: option.splits)
  have bl: "byteLength (snd (free s a)) \<le> byteLength s"
    using True sum_shape_delete [of a "memory s"] by (simp add: free_def byteLength_shape)
  have len: "block_length (snd (free s a)) b = block_length s b" if "has (snd (free s a)) b" for b
  proof -
    from that True have "b \<noteq> a"
      by (auto simp: free_def has_def map_of_delete_same)
    with True show ?thesis
      by (simp add: free_def block_length_def AList.delete_conv')
  qed
  have "invariant cap (snd (free s a))" if "invariant cap s" for cap
    using that True bl names [of "mappedAddressNames s"]
    by (auto simp: invariant_def well_formed_def free_def AList.distinct_delete)
  with len show ?thesis
    by (simp add: ok_step_def)
qed

lemma erase_ok_step: "ok_step s (erase s)"
  by (simp add: ok_step_def erase_def invariant_def well_formed_def has_def byteLength_def)

lemma setVar_ok_step: "ok_step s (snd (setVar s x a))"
  by (simp add: ok_step_def setVar_def invariant_def well_formed_def has_def byteLength_def
      block_length_def AList.distinct_update del: AList.update.simps)

lemma writeString_state:
  "snd (writeString h s v off enc) =
     (case alloc s (int (length (encodedBytes h v enc))) of
        (Inl e, s1) \<Rightarrow> s1
      | (Inr addr, s1) \<Rightarrow> snd (write_vm s1 addr (encodedBytes h v enc) off))"
  by (simp add: writeString_def Let_def split: prod.splits sum.splits)

lemma writeString_ok_step: "ok_step s (snd (writeString h s v off enc))"
proof -
  let ?n = "int (length (encodedBytes h v enc))"
  obtain r s1 where al: "alloc s ?n = (r, s1)"
    by (cases "alloc s ?n")
  with alloc_ok_step [of s ?n] have s1: "ok_step s s1" by simp
  show ?thesis
  proof (cases r)
    case (Inl e)
    with al s1 show ?thesis by (simp add: writeString_state)
  next
    case (Inr addr)
    with al s1 show ?thesis
      using ok_step_same_shape [OF s1 write_vm_same_shape]
      by (simp add: writeString_state)
  qed
qed

lemma exec_ok_step: "ok_step s (exec h s op)"
proof (cases op)
  case (Alloc n)
  then show ?thesis by (simp add: alloc_ok_step)
next
  case (Free a)
  then show ?thesis by (simp add: free_ok_step)
next
  case (FreeVar x)
  then show ?thesis by (simp add: freeVar_def free_ok_step ok_step_refl split: option.splits)
next
  case Erase
  then show ?thesis by (simp add: erase_ok_step)
next
  case (SetVar x a)
  then show ?thesis by (simp add: setVar_ok_step)
next
  case (WriteString v off enc)
  then show ?thesis by (simp add: writeString_ok_step)
qed (simp_all add: same_shape_ok same_shape_refl write_vm_same_shape copy_same_shape fill_same_shape
      writeVar_def copyVar_def fillVar_def clear_def clearVar_def
      writeUint8_def writeUint16_def writeUint32_def writeUint64_def
      writeInt8_def writeInt16_def writeInt32_def writeInt64_def writeBigInt64_def
      split: option.splits)

lemma run_invariant: "invariant cap s \<Longrightarrow> invariant cap (run h s ops)"
proof (induction ops arbitrary: s)
  case Nil
  then show ?case by (simp add: run_def)
next
  case (Cons op ops)
  from Cons.prems exec_ok_step [of s h op] have "invariant cap (exec h s op)"
    by (simp add: ok_step_def)
  from Cons.IH [OF this] show ?case by (simp add: run_def)
qed

lemma new_invariant: "new_VirtualMemory cap = Inr s0 \<Longrightarrow> invariant cap s0"
  by (auto simp: new_VirtualMemory_def invariant_def well_formed_def byteLength_def split: if_splits)

lemma run_snoc: "run h s (ops @ [op]) = exec h (run h s ops) op"
  by (simp add: run_def)

lemma run_well_formed: "new_VirtualMemory cap = Inr s0 \<Longrightarrow> well_formed (run h s0 ops)"
  using run_invariant [OF new_invariant, of cap s0 h ops] by (simp add: invariant_def)



section \<open>A failing method of the class changes nothing\<close>

text \<open>
  Each method of \<^verbatim>\<open>VirtualMemory\<close> checks before it stores: when it raises or returns
  \<^verbatim>\<open>false\<close>, the state is the one before the call.
\<close>

lemma alloc_failure_unchanged: "fst (alloc s n) = Inl e \<Longrightarrow> snd (alloc s n) = s"
  by (auto simp: alloc_def Let_def split: if_splits)

lemma write_vm_failure_unchanged: "fst (write_vm s a d off) \<noteq> Inr True \<Longrightarrow> snd (write_vm s a d off) = s"
  by (auto simp: write_vm_def split: option.splits if_splits)

lemma copy_failure_unchanged:
  "fst (copy s a b n so dof) \<noteq> Inr True \<Longrightarrow> snd (copy s a b n so dof) = s"
  by (auto simp: copy_def split: option.splits if_splits)

lemma fill_failure_unchanged: "fst (fill s a v n off) \<noteq> Inr True \<Longrightarrow> snd (fill s a v n off) = s"
  by (auto simp: fill_def split: option.splits if_splits)

lemma free_failure_unchanged: "\<not> fst (free s a) \<Longrightarrow> snd (free s a) = s"
  by (auto simp: free_def split: if_splits)

lemma setVar_failure_unchanged: "fst (setVar s x a) \<noteq> Inr () \<Longrightarrow> snd (setVar s x a) = s"
  by (auto simp: setVar_def split: if_splits)

text \<open>
  \<^verbatim>\<open>writeString\<close> stores before the check of \<^verbatim>\<open>write\<close>: with an offset other than 0
  (and a string that \<^verbatim>\<open>alloc\<close> accepts) it raises a range error and the new block of
  zero bytes stays.
\<close>

lemma writeString_nonzero_offset:
  assumes "encodedBytes h v enc \<noteq> []"
    and "byteLength s + int (length (encodedBytes h v enc)) \<le> capacity s"
    and "off \<noteq> 0"
  shows "\<exists>e addr. \<not> has s addr \<and>
           writeString h s v off enc =
             (Inl (RangeError e),
              s\<lparr>memory := AList.update addr (replicate (length (encodedBytes h v enc)) 0) (memory s)\<rparr>)"
proof -
  let ?e = "encodedBytes h v enc"
  from assms(1) have pos: "0 < int (length ?e)" by simp
  from alloc_ok [OF pos assms(2)] obtain addr where
    fresh: "\<not> has s addr" and
    al: "alloc s (int (length ?e)) =
           (Inr addr, s\<lparr>memory := AList.update addr (replicate (length ?e) 0) (memory s)\<rparr>)"
    by auto
  let ?s1 = "s\<lparr>memory := AList.update addr (replicate (length ?e) 0) (memory s)\<rparr>"
  have blk: "map_of (memory ?s1) addr = Some (replicate (length ?e) 0)"
    by (simp add: map_of_update_same)
  have "\<exists>e. write_vm ?s1 addr ?e off = (Inl (RangeError e), ?s1)"
    using assms(3) blk by (auto simp: write_vm_def simp del: AList.update.simps)
  then obtain e where "write_vm ?s1 addr ?e off = (Inl (RangeError e), ?s1)" ..
  then have "writeString h s v off enc = (Inl (RangeError e), ?s1)"
    by (simp add: writeString_def al del: AList.update.simps)
  with fresh show ?thesis by blast
qed

section \<open>Signed and unsigned elements have the same bytes\<close>

lemma raw_bytes_signed_unsigned:
  "NumericToRawBytes h n (ToIntN (8 * n) v) = NumericToRawBytes h n (ToUintN (8 * n) v)"
proof -
  define m where "m = v mod 2 ^ (8 * n)"
  define t where "t = ToIntN (8 * n) v"
  define u where "u = ToUintN (8 * n) v"
  have m: "0 \<le> m" "m < 2 ^ (8 * n)"
    by (simp_all add: m_def)
  have t: "t = (if 2 ^ (8 * n - 1) \<le> m then m - 2 ^ (8 * n) else m)"
    by (simp add: t_def m_def ToIntN_def Let_def)
  have a: "(if t < 0 then t + 2 ^ (8 * n) else t) = m"
  proof (cases "2 ^ (8 * n - 1) \<le> m")
    case True
    with t have "t = m - 2 ^ (8 * n)" by simp
    moreover from this m have "t < 0" by linarith
    ultimately show ?thesis by simp
  next
    case False
    with t have "t = m" by simp
    moreover from this m have "\<not> t < 0" by linarith
    ultimately show ?thesis by simp
  qed
  have "u = m"
    by (simp add: u_def m_def ToUintN_def)
  with m have b: "(if u < 0 then u + 2 ^ (8 * n) else u) = m"
    by simp
  have eq: "NumericToRawBytes h n x =
      (let rawBytes = map (\<lambda>i. word_of_int
             ((if x < 0 then x + 2 ^ (8 * n) else x) div 2 ^ (8 * i))) [0..<n]
       in if littleEndian h then rawBytes else rev rawBytes)" for x
    by (simp add: NumericToRawBytes_def Let_def)
  have "NumericToRawBytes h n t = NumericToRawBytes h n u"
    unfolding eq a b ..
  then show ?thesis
    by (simp only: t_def u_def)
qed

section \<open>What \<^verbatim>\<open>readUint32\<close> computes\<close>

lemma read_null_iff: "read s a len off = Inr None \<longleftrightarrow> \<not> has s a"
  by (auto simp: read_def has_def Let_def split: option.splits)

lemma readUint32_raises_out_of_bounds:
  "map_of (memory s) a = Some mem \<Longrightarrow> off < 0 \<or> int (length mem) < off + 4 \<Longrightarrow>
   \<exists>msg. readUint32 h s a off = Inl (RangeError msg)"
  by (auto simp: readUint32_def read_def Let_def)

lemma readUint32_decodes_buffer_start:
  "map_of (memory s) a = Some mem \<Longrightarrow> 0 \<le> off \<Longrightarrow> off + 4 \<le> int (length mem) \<Longrightarrow>
   readUint32 h s a off =
     (if length mem mod 4 \<noteq> 0
      then Inl (RangeError ''byte length of Uint32Array should be a multiple of 4'')
      else Inr (RawBytesToUint h (take 4 mem)))"
  by (auto simp: readUint32_def read_def whole_def subarray_def Let_def)

text \<open>
  Where the two agree: on a block whose length is a multiple of 4, a value written at
  offset 0 is read back at offset 0, modulo \<open>2 ^ 32\<close>.
\<close>

lemma raw4_bytes:
  "NumericToRawBytes h 4 x =
     (let y = (if x < 0 then x + 2 ^ 32 else x);
          le = [word_of_int y, word_of_int (y div 2 ^ 8), word_of_int (y div 2 ^ 16),
                word_of_int (y div 2 ^ 24)]
      in if littleEndian h then le else rev le)"
  by (simp add: NumericToRawBytes_def Let_def upt_rec numeral_eq_Suc)

lemma uint_byte: "uint (word_of_int y :: byte) = y mod 256"
  by (simp add: uint_word_of_int)

lemma four_bytes_sum:
  assumes "0 \<le> (x::int)" and "x < 4294967296"
  shows "x mod 256 + 256 * (x div 256 mod 256 + 256 * (x div 65536 mod 256 + 256 * (x div 16777216 mod 256))) = x"
proof -
  define q1 where "q1 = x div 256"
  define q2 where "q2 = q1 div 256"
  define q3 where "q3 = q2 div 256"
  define m0 where "m0 = x mod 256"
  define m1 where "m1 = q1 mod 256"
  define m2 where "m2 = q2 mod 256"
  have e0: "x = 256 * q1 + m0" and e1: "q1 = 256 * q2 + m1" and e2: "q2 = 256 * q3 + m2"
    by (simp_all add: q1_def q2_def q3_def m0_def m1_def m2_def)
  have p: "0 \<le> m0" "0 \<le> m1" "0 \<le> m2"
    by (simp_all add: m0_def m1_def m2_def)
  have d2: "x div 65536 = q2"
    using zdiv_zmult2_eq [of 256 x 256] by (simp add: q1_def q2_def)
  have d3: "x div 16777216 = q3"
    using zdiv_zmult2_eq [of 256 x 65536] d2 by (simp add: q3_def)
  have "0 \<le> q3"
    using assms by (simp add: q3_def q2_def q1_def pos_imp_zdiv_nonneg_iff)
  moreover have "q3 < 256"
    using e0 e1 e2 p assms(2) by linarith
  ultimately have m3: "q3 mod 256 = q3"
    by simp
  have "m0 + 256 * (m1 + 256 * (m2 + 256 * q3)) = x"
    by (subst e0, subst e1, subst e2) simp
  then show ?thesis
    unfolding d2 d3 m3 q1_def [symmetric] m0_def m1_def m2_def .
qed

lemma decode_encode_uint32:
  assumes "0 \<le> x" and "x < 4294967296"
  shows "RawBytesToUint h (NumericToRawBytes h 4 x) = x"
proof -
  define le :: "byte list" where
    "le = [word_of_int x, word_of_int (x div 2 ^ 8), word_of_int (x div 2 ^ 16),
           word_of_int (x div 2 ^ 24)]"
  have nb: "NumericToRawBytes h 4 x = (if littleEndian h then le else rev le)"
    using assms(1) by (simp add: raw4_bytes le_def Let_def)
  have "RawBytesToUint h (NumericToRawBytes h 4 x) = foldr (\<lambda>b acc. uint b + 256 * acc) le 0"
    unfolding nb RawBytesToUint_def by simp
  also have "\<dots> = x mod 256 + 256 * (x div 256 mod 256 + 256 * (x div 65536 mod 256 + 256 * (x div 16777216 mod 256)))"
    by (simp add: le_def uint_byte)
  also have "\<dots> = x"
    using assms by (rule four_bytes_sum)
  finally show ?thesis .
qed

lemma length_raw4: "length (NumericToRawBytes h 4 x) = 4"
  by (simp add: raw4_bytes Let_def)

lemma writeUint32_readUint32_start:
  assumes "map_of (memory s) a = Some mem" and "4 \<le> length mem" and "length mem mod 4 = 0"
  shows "fst (writeUint32 h s a v 0) = Inr True \<and>
         readUint32 h (snd (writeUint32 h s a v 0)) a 0 = Inr (v mod 2 ^ 32)"
proof -
  define d where "d = NumericToRawBytes h 4 (ToUintN 32 v)"
  have len: "length d = 4"
    by (simp add: d_def length_raw4)
  define mem' where "mem' = d @ drop 4 mem"
  define s' where "s' = s\<lparr>memory := AList.update a mem' (memory s)\<rparr>"
  from assms(2) have ne: "mem \<noteq> []" by auto
  have sb: "set_bytes mem d 0 = mem'"
    using len by (simp add: set_bytes_def mem'_def)
  have w: "write_vm s a d 0 = (Inr True, s')"
    using assms(1,2) ne len sb by (simp add: write_vm_def s'_def del: AList.update.simps)
  have blk: "map_of (memory s') a = Some mem'"
    by (simp add: s'_def map_of_update_same)
  have len': "length mem' = length mem"
    using assms(2) len by (simp add: mem'_def)
  have "readUint32 h s' a 0 = Inr (RawBytesToUint h (take 4 mem'))"
    using readUint32_decodes_buffer_start [OF blk, of 0 h] assms(2,3) len' by simp
  moreover have "take 4 mem' = d"
    using len by (simp add: mem'_def)
  moreover have "RawBytesToUint h d = v mod 2 ^ 32"
    unfolding d_def ToUintN_def by (rule decode_encode_uint32) simp_all
  ultimately have "readUint32 h s' a 0 = Inr (v mod 2 ^ 32)"
    by simp
  with w show ?thesis
    by (simp add: writeUint32_def d_def)
qed

section \<open>Write and read back\<close>

text \<open>
  C1, as the code has it: for a live address \<open>a\<close> whose block has length \<open>L\<close> and a
  buffer \<open>d\<close> with \<open>1 \<le> len(d) \<le> L\<close>, \<^verbatim>\<open>write(a, d, 0)\<close> returns true and the following
  \<^verbatim>\<open>read(a, len(d), 0)\<close> returns a view whose bytes are \<open>d\<close>. Nothing else changes: the
  names, the capacity, the set and order of addresses and every other block are as
  before, and the written block keeps its bytes from \<open>len(d)\<close> on.
\<close>

theorem write_read_roundtrip:
  assumes "map_of (memory s) a = Some mem" and "1 \<le> length d" and "length d \<le> length mem"
  shows "fst (write_vm s a d 0) = Inr True \<and>
         (\<exists>v. read (snd (write_vm s a d 0)) a (Some (int (length d))) 0 = Inr (Some v)
              \<and> bytes_of v = d) \<and>
         snd (write_vm s a d 0) = s\<lparr>memory := memory (snd (write_vm s a d 0))\<rparr> \<and>
         map fst (memory (snd (write_vm s a d 0))) = map fst (memory s) \<and>
         map_of (memory (snd (write_vm s a d 0))) a = Some (d @ drop (length d) mem) \<and>
         (\<forall>b. b \<noteq> a \<longrightarrow> map_of (memory (snd (write_vm s a d 0))) b = map_of (memory s) b)"
proof -
  let ?s' = "s\<lparr>memory := AList.update a (set_bytes mem d 0) (memory s)\<rparr>"
  from assms have ne: "d \<noteq> []" "mem \<noteq> []"
    by auto
  with assms have w: "write_vm s a d 0 = (Inr True, ?s')"
    by (simp add: write_vm_def)
  have sb: "set_bytes mem d 0 = d @ drop (length d) mem"
    by (simp add: set_bytes_def)
  have len: "length (d @ drop (length d) mem) = length mem"
    using assms by simp
  have blk: "map_of (memory ?s') a = Some (d @ drop (length d) mem)"
    by (simp add: map_of_update_same sb)
  have rd: "\<exists>v. read ?s' a (Some (int (length d))) 0 = Inr (Some v) \<and> bytes_of v = d"
    using assms blk len
    by (auto simp: read_def bytes_of_def whole_def subarray_def Let_def simp del: AList.update.simps)
  have keys: "map fst (memory ?s') = map fst (memory s)"
    using assms by (simp add: keys_update_live)
  have others: "\<forall>b. b \<noteq> a \<longrightarrow> map_of (memory ?s') b = map_of (memory s) b"
    by (simp add: map_of_update_other)
  show ?thesis
    unfolding w using rd keys others blk by simp
qed

theorem write_read_roundtrip_witness:
  "map_of (memory two_names_space) 0 = Some [0, 0] \<and>
   1 \<le> length [7 :: byte] \<and> length [7 :: byte] \<le> length [0, 0 :: byte] \<and>
   fst (write_vm two_names_space 0 [7] 0) = Inr True \<and>
   (\<exists>v. read (snd (write_vm two_names_space 0 [7] 0)) 0 (Some 1) 0 = Inr (Some v)
        \<and> bytes_of v = [7]) \<and>
   map_of (memory (snd (write_vm two_names_space 0 [7] 0))) 0 = Some [7, 0]"
proof -
  have h: "map_of (memory two_names_space) 0 = Some [0, 0]"
    by (simp add: two_names_space_def)
  show ?thesis
    using h write_read_roundtrip [OF h, of "[7]"] by simp
qed

text \<open>
  C1 as stated fails for the empty buffer: its length is at most that of the block, and
  \<^verbatim>\<open>write\<close> raises the range error of its guard \<^verbatim>\<open>data.byteLength <= 0\<close>.
\<close>

theorem write_empty_counterexample:
  "map_of (memory two_names_space) 0 = Some [0, 0] \<and>
   length ([] :: byte list) \<le> length [0, 0 :: byte] \<and>
   write_vm two_names_space 0 [] 0 =
     (Inl (RangeError ''Invalid memory write data length''), two_names_space)"
  by (simp add: two_names_space_def write_vm_def)


section \<open>Address selection\<close>



section \<open>The capacity bound\<close>

text \<open>
  C3, as the code has it: for an address space constructed with a capacity that is not
  negative, after every sequence of calls the sum of the lengths of the live blocks is
  at most the capacity, which never changes; \<^verbatim>\<open>alloc\<close> of a size that would exceed it
  raises and inserts nothing; and a block that is live before and after a call has the
  same length.
\<close>

theorem capacity_invariant:
  assumes "new_VirtualMemory cap = Inr s0" and "0 \<le> cap"
  shows "byteLength (run h s0 ops) \<le> cap \<and> capacity (run h s0 ops) = cap \<and>
         (\<forall>n. byteLength (run h s0 ops) + n > cap \<longrightarrow>
              snd (alloc (run h s0 ops) n) = run h s0 ops \<and>
              (\<exists>e. fst (alloc (run h s0 ops) n) = Inl e)) \<and>
         (\<forall>op a. has (run h s0 ops) a \<and> has (run h s0 (ops @ [op])) a \<longrightarrow>
              block_length (run h s0 (ops @ [op])) a = block_length (run h s0 ops) a)"
proof -
  from assms(1) have inv: "invariant cap (run h s0 ops)"
    by (simp add: new_invariant run_invariant)
  with assms(2) have "byteLength (run h s0 ops) \<le> cap" "capacity (run h s0 ops) = cap"
    by (simp_all add: invariant_def)
  moreover have "snd (alloc (run h s0 ops) n) = run h s0 ops \<and>
              (\<exists>e. fst (alloc (run h s0 ops) n) = Inl e)"
    if "byteLength (run h s0 ops) + n > cap" for n
    using that \<open>capacity (run h s0 ops) = cap\<close> by (simp add: alloc_def)
  moreover have "block_length (run h s0 (ops @ [op])) a = block_length (run h s0 ops) a"
    if "has (run h s0 ops) a \<and> has (run h s0 (ops @ [op])) a" for op a
    using that exec_ok_step [of "run h s0 ops" h op] by (simp add: run_snoc ok_step_def)
  ultimately show ?thesis by blast
qed

theorem capacity_invariant_witness:
  "new_VirtualMemory 80 = Inr (empty_space 80) \<and> (0::int) \<le> 80 \<and>
   byteLength (run latin1_host (empty_space 80) [Alloc 10, Alloc 5, Free 0]) \<le> 80 \<and>
   byteLength (run latin1_host (empty_space 80) [Alloc 10, Alloc 5, Free 0]) + 76 > 80 \<and>
   (\<exists>e. fst (alloc (run latin1_host (empty_space 80) [Alloc 10, Alloc 5, Free 0]) 76) = Inl e) \<and>
   has (run latin1_host (empty_space 80) [Alloc 10, Alloc 5, Free 0]) 1 \<and>
   has (run latin1_host (empty_space 80) ([Alloc 10, Alloc 5, Free 0] @ [Write 1 [7] 0])) 1 \<and>
   block_length (run latin1_host (empty_space 80) ([Alloc 10, Alloc 5, Free 0] @ [Write 1 [7] 0])) 1 =
     block_length (run latin1_host (empty_space 80) [Alloc 10, Alloc 5, Free 0]) 1"
proof -
  have c: "(0::int) \<le> 80" by simp
  have r: "run latin1_host (empty_space 80) [Alloc 10, Alloc 5, Free 0] =
      (empty_space 80)\<lparr>memory := [(1, replicate 5 0)]\<rparr>"
    by (simp add: run_example)
  have b: "byteLength ((empty_space 80)\<lparr>memory := [(1, replicate 5 0)]\<rparr>) = 5"
    by (simp add: byteLength_def empty_space_def)
  have l: "has ((empty_space 80)\<lparr>memory := [(1, replicate 5 0)]\<rparr>) 1"
    by (simp add: has_def)
  have l': "has (exec latin1_host ((empty_space 80)\<lparr>memory := [(1, replicate 5 0)]\<rparr>) (Write 1 [7] 0)) 1"
    by (simp add: has_def write_vm_def)
  note ci = capacity_invariant [OF new_80 c, of latin1_host "[Alloc 10, Alloc 5, Free 0]",
      unfolded run_snoc r]
  from ci have le: "byteLength ((empty_space 80)\<lparr>memory := [(1, replicate 5 0)]\<rparr>) \<le> 80"
    by blast
  from ci have "\<forall>n. byteLength ((empty_space 80)\<lparr>memory := [(1, replicate 5 0)]\<rparr>) + n > 80 \<longrightarrow>
      (\<exists>e. fst (alloc ((empty_space 80)\<lparr>memory := [(1, replicate 5 0)]\<rparr>) n) = Inl e)"
    by blast
  from this [rule_format, of 76] b
  have full: "\<exists>e. fst (alloc ((empty_space 80)\<lparr>memory := [(1, replicate 5 0)]\<rparr>) 76) = Inl e"
    by simp
  from ci l l' have same: "block_length
      (exec latin1_host ((empty_space 80)\<lparr>memory := [(1, replicate 5 0)]\<rparr>) (Write 1 [7] 0)) 1 =
      block_length ((empty_space 80)\<lparr>memory := [(1, replicate 5 0)]\<rparr>) 1"
    by blast
  show ?thesis
    unfolding run_snoc r using new_80 le full same l l' b by simp
qed

text \<open>
  C3 as stated fails for a negative capacity, which the constructor accepts (its only
  guard is the upper bound): the empty space holds 0 bytes, more than its capacity.
\<close>

theorem negative_capacity_counterexample:
  "new_VirtualMemory (- 1) = Inr (empty_space (- 1)) \<and>
   run latin1_host (empty_space (- 1)) [] = empty_space (- 1) \<and>
   byteLength (empty_space (- 1)) = 0 \<and> capacity (empty_space (- 1)) = - 1 \<and>
   \<not> byteLength (empty_space (- 1)) \<le> capacity (empty_space (- 1))"
  by (simp add: new_VirtualMemory_def empty_space_def MAX_SAFE_MEMORY_SIZE_def
      MAX_SAFE_INTEGER_def run_def byteLength_def)

section \<open>Reading an unsigned 32-bit value\<close>

text \<open>
  C4 does not hold on the code. \<^verbatim>\<open>readUint32(a, off)\<close> reads the region at \<open>off\<close> but
  then decodes \<^verbatim>\<open>data.buffer\<close>, the whole buffer of the block, from byte 0. On a block
  of 8 zero bytes, \<^verbatim>\<open>writeUint32(a, 1, 4)\<close> returns true and \<^verbatim>\<open>readUint32(a, 4)\<close>
  returns 0, not 1; on a block of 5 bytes, \<^verbatim>\<open>readUint32(a, 0)\<close> raises a range error,
  since 5 is not a multiple of 4.
\<close>

theorem readUint32_ignores_offset:
  "alloc (empty_space 80) 8 = (Inr 0, (empty_space 80)\<lparr>memory := [(0, replicate 8 0)]\<rparr>) \<and>
   writeUint32 h (snd (alloc (empty_space 80) 8)) 0 1 4 =
     (Inr True,
      (empty_space 80)\<lparr>memory := [(0, [0, 0, 0, 0] @ NumericToRawBytes h 4 (ToUintN 32 1))]\<rparr>) \<and>
   RawBytesToUint h (NumericToRawBytes h 4 (ToUintN 32 1)) = 1 \<and>
   readUint32 h (snd (writeUint32 h (snd (alloc (empty_space 80) 8)) 0 1 4)) 0 4 = Inr 0 \<and>
   alloc (empty_space 80) 5 = (Inr 0, (empty_space 80)\<lparr>memory := [(0, replicate 5 0)]\<rparr>) \<and>
   readUint32 h (snd (alloc (empty_space 80) 5)) 0 0 =
     Inl (RangeError ''byte length of Uint32Array should be a multiple of 4'')"
proof -
  let ?s8 = "(empty_space 80)\<lparr>memory := [(0, replicate 8 0)]\<rparr>"
  let ?d = "NumericToRawBytes h 4 (ToUintN 32 1)"
  let ?s' = "(empty_space 80)\<lparr>memory := [(0, [0, 0, 0, 0] @ ?d)]\<rparr>"
  have len: "length ?d = 4"
    by (simp add: raw4_1)
  have w: "writeUint32 h ?s8 0 1 4 = (Inr True, ?s')"
    using len
    by (simp add: writeUint32_def write_vm_def set_bytes_def empty_space_def numeral_eq_Suc)
  have r: "readUint32 h ?s' 0 4 = Inr 0"
    using len by (simp add: readUint32_def read_def subarray_def whole_def RawBytesToUint_def)
  have r5: "readUint32 h ((empty_space 80)\<lparr>memory := [(0, replicate 5 0)]\<rparr>) 0 0 =
     Inl (RangeError ''byte length of Uint32Array should be a multiple of 4'')"
    by (simp add: readUint32_def read_def subarray_def whole_def)
  show ?thesis
    by (simp only: alloc8 alloc5 w r r5 decode_raw4_1 fst_conv snd_conv simp_thms)
qed



section \<open>A failing \<^verbatim>\<open>writeString\<close>\<close>

text \<open>
  C6 does not hold on the code. \<^verbatim>\<open>writeString(space, 'Hello', 1)\<close> on the empty space
  of capacity 80 allocates a block of 5 bytes at address 0; the write at offset 1 then
  raises its range error, and the block stays in the space.
\<close>

theorem writeString_offset_leaves_block:
  "new_VirtualMemory 80 = Inr (empty_space 80) \<and>
   writeString latin1_host (empty_space 80) hello 1 ''utf-8'' =
     (Inl (RangeError ''Invalid memory write data length''),
      (empty_space 80)\<lparr>memory := [(0, [0, 0, 0, 0, 0])]\<rparr>) \<and>
   snd (writeString latin1_host (empty_space 80) hello 1 ''utf-8'') \<noteq> empty_space 80"
proof -
  have e: "encodedBytes latin1_host hello ''utf-8'' = [72, 101, 108, 108, 111]"
    by (simp add: encodedBytes_def latin1_host_def hello_def)
  have w: "writeString latin1_host (empty_space 80) hello 1 ''utf-8'' =
     (Inl (RangeError ''Invalid memory write data length''),
      (empty_space 80)\<lparr>memory := [(0, [0, 0, 0, 0, 0])]\<rparr>)"
    by (simp add: writeString_def e alloc5 write_vm_def numeral_eq_Suc)
  have "(empty_space 80)\<lparr>memory := [(0, [0, 0, 0, 0, 0])]\<rparr> \<noteq> empty_space 80"
    by (simp add: empty_space_def)
  with w new_80 show ?thesis by simp
qed

section \<open>Freeing an address\<close>

text \<open>
  C7: \<^verbatim>\<open>free(a)\<close> on an address that is not live returns false and changes nothing.
  On a live address it returns true, removes the block of \<open>a\<close> and no other block,
  and removes at most one name: none when no name is bound to \<open>a\<close>, otherwise the
  first name bound to \<open>a\<close> in insertion order, every other name staying in place (also
  the further names bound to \<open>a\<close>). A second \<^verbatim>\<open>free(a)\<close> returns false.
\<close>

theorem free_spec:
  assumes "well_formed s"
  shows "(\<not> has s a \<longrightarrow> free s a = (False, s)) \<and>
         (has s a \<longrightarrow>
            fst (free s a) = True \<and> \<not> has (snd (free s a)) a \<and>
            (\<forall>b. b \<noteq> a \<longrightarrow> map_of (memory (snd (free s a))) b = map_of (memory s) b) \<and>
            (a \<notin> snd ` set (mappedAddressNames s) \<longrightarrow>
               mappedAddressNames (snd (free s a)) = mappedAddressNames s) \<and>
            (\<forall>xs n ys. mappedAddressNames s = xs @ (n, a) # ys \<and> a \<notin> snd ` set xs \<longrightarrow>
               mappedAddressNames (snd (free s a)) = xs @ ys) \<and>
            free (snd (free s a)) a = (False, snd (free s a)))"
proof (intro conjI impI allI)
  show "free s a = (False, s)" if "\<not> has s a"
    using that by (simp add: free_def)
next
  assume live: "has s a"
  show "fst (free s a) = True"
    using live by (simp add: free_def)
  show gone: "\<not> has (snd (free s a)) a"
    using live by (simp add: free_def has_def map_of_delete_same)
  show "free (snd (free s a)) a = (False, snd (free s a))"
    using gone by (simp add: free_def)
  show "map_of (memory (snd (free s a))) b = map_of (memory s) b" if "b \<noteq> a" for b
    using live that by (simp add: free_def AList.delete_conv')
  show "mappedAddressNames (snd (free s a)) = mappedAddressNames s"
    if "a \<notin> snd ` set (mappedAddressNames s)"
    using live that first_bound_None [of a "mappedAddressNames s"] by (simp add: free_def)
  show "mappedAddressNames (snd (free s a)) = xs @ ys"
    if "mappedAddressNames s = xs @ (n, a) # ys \<and> a \<notin> snd ` set xs" for xs n ys
  proof -
    from that have fb: "first_bound a (mappedAddressNames s) = Some n"
      using first_bound_split by blast
    from assms that have "AList.delete n (mappedAddressNames s) = xs @ ys"
      using delete_distinct_split [of xs n a ys] by (simp add: well_formed_def)
    with live fb show ?thesis by (simp add: free_def)
  qed
qed

theorem free_spec_witness:
  "well_formed two_names_space \<and> has two_names_space 0 \<and> \<not> has two_names_space 7 \<and>
   free two_names_space 7 = (False, two_names_space) \<and>
   fst (free two_names_space 0) = True \<and>
   mappedAddressNames (snd (free two_names_space 0)) = [([121], 0)] \<and>
   free (snd (free two_names_space 0)) 0 = (False, snd (free two_names_space 0)) \<and>
   well_formed zero_word_space \<and> has zero_word_space 0 \<and>
   0 \<notin> snd ` set (mappedAddressNames zero_word_space) \<and>
   mappedAddressNames (snd (free zero_word_space 0)) = mappedAddressNames zero_word_space"
proof -
  have h: "well_formed two_names_space"
    by (simp add: well_formed_def two_names_space_def)
  have l: "has two_names_space 0" and n: "\<not> has two_names_space 7"
    by (simp_all add: has_def two_names_space_def)
  have names: "mappedAddressNames two_names_space = [] @ ([120], 0) # [([121], 0)]"
    by (simp add: two_names_space_def)
  from free_spec [OF h, of 0] l have
    "\<forall>xs n ys. mappedAddressNames two_names_space = xs @ (n, 0) # ys \<and> 0 \<notin> snd ` set xs \<longrightarrow>
       mappedAddressNames (snd (free two_names_space 0)) = xs @ ys"
    by blast
  from this [rule_format, of "[]" "[120]" "[([121], 0)]"] names
  have first: "mappedAddressNames (snd (free two_names_space 0)) = [([121], 0)]"
    by simp
  have h': "well_formed zero_word_space"
    by (simp add: well_formed_def zero_word_space_def)
  have l': "has zero_word_space 0"
    and u: "0 \<notin> snd ` set (mappedAddressNames zero_word_space)"
    by (simp_all add: has_def zero_word_space_def)
  from free_spec [OF h', of 0] l' u
  have none: "mappedAddressNames (snd (free zero_word_space 0)) = mappedAddressNames zero_word_space"
    by blast
  show ?thesis
    using h l n first h' l' u none free_spec [OF h, of 0] free_spec [OF h, of 7] by simp
qed

section \<open>Strings\<close>

text \<open>
  C8, as the code has it: for a string \<open>v\<close> whose encoded bytes are not empty and fit
  under the capacity that is left, and that the codec decodes back
  (\<open>decode (encode v) = v\<close>), \<^verbatim>\<open>writeString(space, v)\<close> returns a new address, and
  \<^verbatim>\<open>readString\<close> at that address with the encoded length returns \<open>v\<close>.
\<close>

theorem string_roundtrip:
  assumes "encodedBytes h v enc \<noteq> []"
    and "byteLength s + int (length (encodedBytes h v enc)) \<le> capacity s"
    and "decodedString h (encodedBytes h v enc) enc = v"
  shows "\<exists>addr s'. writeString h s v 0 enc = (Inr (Some addr), s') \<and> \<not> has s addr \<and>
           readString h s' addr (Some (int (length (encodedBytes h v enc)))) 0 enc = Inr (Some v)"
proof -
  let ?e = "encodedBytes h v enc"
  from assms(1) have pos: "0 < int (length ?e)" by simp
  from alloc_ok [OF pos assms(2)] obtain addr where
    fresh: "\<not> has s addr" and
    al: "alloc s (int (length ?e)) =
           (Inr addr, s\<lparr>memory := AList.update addr (replicate (length ?e) 0) (memory s)\<rparr>)"
    by auto
  let ?s1 = "s\<lparr>memory := AList.update addr (replicate (length ?e) 0) (memory s)\<rparr>"
  let ?s2 = "?s1\<lparr>memory := AList.update addr ?e (memory ?s1)\<rparr>"
  have blk: "map_of (memory ?s1) addr = Some (replicate (length ?e) 0)"
    by (simp add: map_of_update_same)
  have w: "write_vm ?s1 addr ?e 0 = (Inr True, ?s2)"
    using assms(1) blk by (simp add: write_vm_def set_bytes_def del: AList.update.simps)
  have ws: "writeString h s v 0 enc = (Inr (Some addr), ?s2)"
    by (simp add: writeString_def al w del: AList.update.simps)
  have blk2: "map_of (memory ?s2) addr = Some ?e"
    by (simp add: map_of_update_same)
  have "read ?s2 addr (Some (int (length ?e))) 0 = Inr (Some (whole ?e))"
    using assms(1) blk2 by (simp add: read_def del: AList.update.simps)
  moreover have "bytes_of (whole ?e) = ?e"
    by (simp add: bytes_of_def whole_def)
  ultimately have "readString h ?s2 addr (Some (int (length ?e))) 0 enc = Inr (Some v)"
    using assms(3) by (simp add: readString_def del: AList.update.simps)
  with ws fresh show ?thesis by blast
qed

theorem string_roundtrip_witness:
  "encodedBytes latin1_host hello ''utf-8'' \<noteq> [] \<and>
   byteLength (empty_space 80) + int (length (encodedBytes latin1_host hello ''utf-8''))
     \<le> capacity (empty_space 80) \<and>
   decodedString latin1_host (encodedBytes latin1_host hello ''utf-8'') ''utf-8'' = hello \<and>
   (\<exists>addr s'. writeString latin1_host (empty_space 80) hello 0 ''utf-8'' = (Inr (Some addr), s') \<and>
      readString latin1_host s' addr (Some 5) 0 ''utf-8'' = Inr (Some hello))"
proof -
  have e: "encodedBytes latin1_host hello ''utf-8'' = [72, 101, 108, 108, 111]"
    by (simp add: encodedBytes_def latin1_host_def hello_def)
  have h1: "encodedBytes latin1_host hello ''utf-8'' \<noteq> []"
    by (simp add: e)
  have h2: "byteLength (empty_space 80) + int (length (encodedBytes latin1_host hello ''utf-8''))
     \<le> capacity (empty_space 80)"
    by (simp add: e byteLength_def empty_space_def)
  have h3: "decodedString latin1_host (encodedBytes latin1_host hello ''utf-8'') ''utf-8'' = hello"
    unfolding e by (simp add: decodedString_def latin1_host_def hello_def)
  show ?thesis
    using h1 h2 h3 string_roundtrip [OF h1 h2 h3] by (auto simp: e)
qed

text \<open>
  C8 as stated fails: for the empty string \<^verbatim>\<open>writeString\<close> raises the size error of
  \<^verbatim>\<open>alloc\<close>; for a string that does not fit it raises the capacity error; and Latin-1
  does not decode the code unit 256 back (its byte is 0).
\<close>

theorem string_roundtrip_counterexample:
  "encodedBytes latin1_host [] ''utf-8'' = [] \<and>
   writeString latin1_host (empty_space 80) [] 0 ''utf-8'' =
     (Inl (RangeError ''Memory allocation size must be greater than 0''), empty_space 80) \<and>
   writeString latin1_host (empty_space 3) hello 0 ''utf-8'' =
     (Inl (RangeError ''Memory allocation exceeds the memory capacity''), empty_space 3) \<and>
   writeString latin1_host (empty_space 80) [256] 0 ''latin1'' =
     (Inr (Some 0), (empty_space 80)\<lparr>memory := [(0, [0])]\<rparr>) \<and>
   readString latin1_host ((empty_space 80)\<lparr>memory := [(0, [0])]\<rparr>) 0
     (Some (int (length (encodedBytes latin1_host [256] ''latin1'')))) 0 ''latin1'' = Inr (Some [0])"
  by (simp add: encodedBytes_def decodedString_def latin1_host_def hello_def writeString_def
      readString_def alloc_def write_vm_def read_def empty_space_def byteLength_def size_vm_def
      probe.simps set_bytes_def whole_def bytes_of_def)

text \<open>
  C9: \<^verbatim>\<open>writeInt64\<close> and \<^verbatim>\<open>writeBigInt64\<close> return the same result and the same state
  for every address, value and offset; the bytes both write are the 8-byte encoding of
  the value modulo \<open>2 ^ 64\<close>.
\<close>

theorem writeInt64_writeBigInt64:
  "writeInt64 h s a v off = writeBigInt64 h s a v off \<and>
   NumericToRawBytes h 8 (ToIntN 64 v) = NumericToRawBytes h 8 (v mod 2 ^ 64) \<and>
   NumericToRawBytes h 8 (ToUintN 64 v) = NumericToRawBytes h 8 (v mod 2 ^ 64)"
  using raw_bytes_signed_unsigned [of h 8 v]
  by (simp add: writeInt64_def writeBigInt64_def ToUintN_def)

text \<open>
  C10: in every state, \<^verbatim>\<open>writeString\<close> with the empty string, whose encoding has no
  bytes, raises the size error of \<^verbatim>\<open>alloc\<close>, whatever the offset, and leaves the state
  unchanged.
\<close>

theorem writeString_empty:
  assumes "encodedBytes h [] enc = []"
  shows "writeString h s [] off enc =
           (Inl (RangeError ''Memory allocation size must be greater than 0''), s)"
  using assms by (simp add: writeString_def alloc_def)

theorem writeString_empty_witness:
  "encodedBytes latin1_host [] ''utf-8'' = [] \<and>
   writeString latin1_host two_names_space [] 0 ''utf-8'' =
     (Inl (RangeError ''Memory allocation size must be greater than 0''), two_names_space)"
proof -
  have h: "encodedBytes latin1_host [] ''utf-8'' = []"
    by (simp add: encodedBytes_def latin1_host_def)
  show ?thesis
    using h writeString_empty [OF h, of two_names_space 0] by simp
qed

end
